theory Spec2Isabelle
  imports Complex_Main "HOL-Library.Word"
begin

section \<open>Brain tumour classification demo: the pipeline of streamlit_app.py\<close>

text \<open>
  The application is one Python script. Floating-point arrays are modelled as lists of
  \<^typ>\<open>real\<close> (exact arithmetic), 8-bit images as lists of \<^typ>\<open>8 word\<close>, Python
  exceptions as values of \<open>py_error\<close>, and a computation that may raise as a value of
  \<open>py_error + 'a\<close>. Calls into TensorFlow, Keras, OpenCV, gdown and Streamlit are
  parameters of the model.
\<close>

subsection \<open>Exceptions\<close>

datatype py_error =
  KeyError | IndexError | ValueError | AttributeError | ZeroDivisionError
  | FileExistsError | OSError | LibraryError string

subsection \<open>Prediction and reported label (lines 198, 206-209)\<close>

definition labels :: "string list" where
  "labels = [''Glioma'', ''Meningioma'', ''No Tumor'', ''Pituitary'']"

text \<open>
  \<open>np.argmax\<close> scans the vector once and keeps the first index that holds the largest
  value; on an empty vector it raises ValueError.
\<close>

fun argmax_from :: "real list \<Rightarrow> nat \<Rightarrow> nat \<Rightarrow> real \<Rightarrow> nat" where
  "argmax_from [] i best bv = best"
| "argmax_from (x # xs) i best bv =
     (if bv < x then argmax_from xs (Suc i) i x else argmax_from xs (Suc i) best bv)"

definition np_argmax :: "real list \<Rightarrow> py_error + nat" where
  "np_argmax xs = (case xs of [] \<Rightarrow> Inl ValueError | x # r \<Rightarrow> Inr (argmax_from r 1 0 x))"

text \<open>\<open>labels[class_index]\<close>: a list read that raises IndexError out of range.\<close>

definition list_get :: "'a list \<Rightarrow> nat \<Rightarrow> py_error + 'a" where
  "list_get xs i = (if i < length xs then Inr (xs ! i) else Inl IndexError)"

text \<open>Lines 208-209: \<open>class_index = np.argmax(prediction[0]); result = labels[class_index]\<close>.\<close>

definition reported_label :: "real list \<Rightarrow> py_error + (nat \<times> string)" where
  "reported_label prediction0 =
     (case np_argmax prediction0 of
        Inl e \<Rightarrow> Inl e
      | Inr class_index \<Rightarrow>
          (case list_get labels class_index of
             Inl e \<Rightarrow> Inl e
           | Inr result \<Rightarrow> Inr (class_index, result)))"

subsection \<open>Saliency map: mask, normalisation, threshold (lines 69-83)\<close>

text \<open>
  A single-channel array is a list of rows. \<open>gradients.shape\<close> is (rows, columns);
  NumPy arrays are rectangular, which \<open>rect\<close> states for the list of rows.
\<close>

type_synonym gray = "real list list"

definition rect :: "nat \<Rightarrow> nat \<Rightarrow> 'a list list \<Rightarrow> bool" where
  "rect h w g = (length g = h \<and> list_all (\<lambda>r. length r = w) g)"

definition shape0 :: "'a list list \<Rightarrow> nat" where
  "shape0 g = length g"

definition shape1 :: "'a list list \<Rightarrow> nat" where
  "shape1 g = (case g of [] \<Rightarrow> 0 | r # _ \<Rightarrow> length r)"

text \<open>
  Lines 69-72. \<open>center = (shape[0]//2, shape[1]//2)\<close>, \<open>radius = min(center) - 10\<close>,
  and with \<open>y\<close> the row index and \<open>x\<close> the column index
  \<open>mask = (x - center[0])**2 + (y - center[1])**2 <= radius**2\<close>. The integers are
  Python's (unbounded, signed): the radius is negative for small images.
\<close>

definition center :: "'a list list \<Rightarrow> nat \<times> nat" where
  "center g = (shape0 g div 2, shape1 g div 2)"

definition radius :: "'a list list \<Rightarrow> int" where
  "radius g = int (min (fst (center g)) (snd (center g))) - 10"

definition mask_at :: "nat \<times> nat \<Rightarrow> int \<Rightarrow> nat \<Rightarrow> nat \<Rightarrow> bool" where
  "mask_at c r y x = ((int x - int (fst c))\<^sup>2 + (int y - int (snd c))\<^sup>2 \<le> r\<^sup>2)"

definition circular_mask :: "'a list list \<Rightarrow> bool list list" where
  "circular_mask g =
     map (\<lambda>y. map (\<lambda>x. mask_at (center g) (radius g) y x) [0..<shape1 g]) [0..<shape0 g]"

text \<open>Line 74, \<open>gradients * mask\<close>: the Boolean mask multiplies as 1 or 0.\<close>

definition times_mask :: "gray \<Rightarrow> bool list list \<Rightarrow> gray" where
  "times_mask g m = map2 (map2 (\<lambda>v b. v * (if b then 1 else 0))) g m"

text \<open>\<open>gradients[mask]\<close>: the selected entries, row by row, as a flat array.\<close>

definition select_mask :: "gray \<Rightarrow> bool list list \<Rightarrow> real list" where
  "select_mask g m = concat (map2 (\<lambda>row mrow. map fst (filter snd (zip row mrow))) g m)"

text \<open>
  \<open>.max()\<close> and \<open>.min()\<close> of a flat array raise ValueError on an empty one.
\<close>

definition np_max :: "real list \<Rightarrow> py_error + real" where
  "np_max xs = (case xs of [] \<Rightarrow> Inl ValueError | x # r \<Rightarrow> Inr (fold max r x))"

definition np_min :: "real list \<Rightarrow> py_error + real" where
  "np_min xs = (case xs of [] \<Rightarrow> Inl ValueError | x # r \<Rightarrow> Inr (fold min r x))"

text \<open>
  Division of an array by a scalar. NumPy would fill the result with inf or nan on a
  zero denominator; the model makes that event a value, ZeroDivisionError, so that its
  absence is a property of the caller.
\<close>

definition array_div :: "real list \<Rightarrow> real \<Rightarrow> py_error + real list" where
  "array_div xs d = (if d = 0 then Inl ZeroDivisionError else Inr (map (\<lambda>v. v / d) xs))"

text \<open>Lines 77-78: min-max normalisation of the selected values, guarded by max > min.\<close>

definition normalize_brain :: "real list \<Rightarrow> py_error + real list" where
  "normalize_brain brain_gradients =
     (case np_max brain_gradients of
        Inl e \<Rightarrow> Inl e
      | Inr mx \<Rightarrow>
          (case np_min brain_gradients of
             Inl e \<Rightarrow> Inl e
           | Inr mn \<Rightarrow>
               if mx > mn
               then array_div (map (\<lambda>v. v - mn) brain_gradients) (mx - mn)
               else Inr brain_gradients))"

text \<open>
  Line 80, \<open>gradients[mask] = brain_gradients\<close>: the values are written back to the
  selected positions in the same row-by-row order; NumPy raises ValueError when their
  number differs from the number of selected positions.
\<close>

fun fill_row :: "real list \<Rightarrow> bool list \<Rightarrow> real list \<Rightarrow> real list" where
  "fill_row (v # vs) (b # bs) ws =
     (if b then (case ws of [] \<Rightarrow> v # fill_row vs bs [] | w # ws' \<Rightarrow> w # fill_row vs bs ws')
      else v # fill_row vs bs ws)"
| "fill_row vs bs ws = vs"

definition count_row :: "'a list \<Rightarrow> bool list \<Rightarrow> nat" where
  "count_row row mrow = length (filter snd (zip row mrow))"

fun scatter :: "gray \<Rightarrow> bool list list \<Rightarrow> real list \<Rightarrow> gray" where
  "scatter (r # rs) (m # ms) ws = fill_row r m ws # scatter rs ms (drop (count_row r m) ws)"
| "scatter rs ms ws = rs"

definition put_mask :: "gray \<Rightarrow> bool list list \<Rightarrow> real list \<Rightarrow> py_error + gray" where
  "put_mask g m ws =
     (if length ws = length (select_mask g m) then Inr (scatter g m ws) else Inl ValueError)"

text \<open>
  Line 82, \<open>np.percentile(a, 80)\<close> with NumPy's default linear interpolation: in the
  sorted array of length n the virtual index is 0.8 (n - 1) = 4 (n - 1) / 5; the result
  lies between the entries at its floor and at the next index, weighted by its
  fractional part. An empty array has no percentile; the model raises IndexError.
\<close>

definition np_percentile80 :: "real list \<Rightarrow> py_error + real" where
  "np_percentile80 a =
     (if a = [] then Inl IndexError
      else
        let s = sort a; n = length a; k = 4 * (n - 1);
            lo = k div 5; hi = min (lo + 1) (n - 1); t = real (k mod 5) / 5
        in Inr (s ! lo + t * (s ! hi - s ! lo)))"

text \<open>Line 83, \<open>gradients[gradients < threshold] = 0\<close>, over the whole array.\<close>

definition zero_below :: "gray \<Rightarrow> real \<Rightarrow> gray" where
  "zero_below g threshold = map (map (\<lambda>v. if v < threshold then 0 else v)) g"

text \<open>Lines 69-80: the array after the normalised values are written back.\<close>

definition normalize_masked :: "gray \<Rightarrow> py_error + gray" where
  "normalize_masked gradients =
     (let m = circular_mask gradients;
          masked = times_mask gradients m
      in case normalize_brain (select_mask masked m) of
           Inl e \<Rightarrow> Inl e
         | Inr brain_gradients \<Rightarrow> put_mask masked m brain_gradients)"

text \<open>Lines 82-83 on the array that line 80 leaves.\<close>

definition threshold_masked :: "gray \<Rightarrow> bool list list \<Rightarrow> py_error + gray" where
  "threshold_masked gradients m =
     (case np_percentile80 (select_mask gradients m) of
        Inl e \<Rightarrow> Inl e
      | Inr threshold \<Rightarrow> Inr (zero_below gradients threshold))"

text \<open>Lines 69-83 together.\<close>

definition mask_normalize_threshold :: "gray \<Rightarrow> py_error + gray" where
  "mask_normalize_threshold gradients =
     (case normalize_masked gradients of
        Inl e \<Rightarrow> Inl e
      | Inr normalized \<Rightarrow> threshold_masked normalized (circular_mask gradients))"

subsection \<open>API key at start-up (lines 19-26)\<close>

text \<open>
  \<open>os.environ\<close> (as \<open>load_dotenv()\<close> leaves it) and \<open>st.secrets\<close> are maps from names
  to strings. \<open>os.environ.get\<close> returns None for a missing name; subscripting the secrets
  store with a missing name raises KeyError.
\<close>

definition environ_get :: "(string \<rightharpoonup> string) \<Rightarrow> string \<Rightarrow> string option" where
  "environ_get environ k = environ k"

definition secrets_getitem :: "(string \<rightharpoonup> string) \<Rightarrow> string \<Rightarrow> py_error + string" where
  "secrets_getitem secrets k = (case secrets k of None \<Rightarrow> Inl KeyError | Some v \<Rightarrow> Inr v)"

definition resolve_api_key ::
  "(string \<rightharpoonup> string) \<Rightarrow> (string \<rightharpoonup> string) \<Rightarrow> py_error + string option" where
  "resolve_api_key environ secrets =
     (if ''GOOGLE_API_KEY'' \<in> dom environ
      then Inr (environ_get environ ''GOOGLE_API_KEY'')
      else (case secrets_getitem secrets ''GOOGLE_API_KEY'' of
              Inl e \<Rightarrow> Inl e
            | Inr v \<Rightarrow> Inr (Some v)))"

text \<open>
  The script runs top to bottom. Its steps after the key is resolved, in source order:
  line 23, line 26, line 181, line 182, and the body of \<open>if uploaded_file is not None\<close>
  (lines 184-230), which is the processing of a request. A raised exception ends the
  script, so no later step happens. Only the exception of the key lookup is modelled
  here; what the later steps do is the subject of the sections below.
\<close>

datatype step =
  GenaiConfigure "string option" | MakeOutputDir | DownloadModels | FileUploader
  | ProcessUpload

definition run_script ::
  "(string \<rightharpoonup> string) \<Rightarrow> (string \<rightharpoonup> string) \<Rightarrow> bool \<Rightarrow> py_error option \<times> step list" where
  "run_script environ secrets uploaded =
     (case resolve_api_key environ secrets of
        Inl e \<Rightarrow> (Some e, [])
      | Inr api_key \<Rightarrow>
          (None, [GenaiConfigure api_key, MakeOutputDir, DownloadModels, FileUploader]
                 @ (if uploaded then [ProcessUpload] else [])))"

subsection \<open>Model files (download_models, lines 156-176)\<close>

text \<open>
  The file system is a map from paths to nodes. \<open>gdown.download\<close> is the parameter
  \<open>remote\<close>: for a URL it raises, or gives up and returns None without writing, or yields
  the bytes that are written to the output path. Every call is logged in \<open>downloads\<close>.
\<close>

datatype node = File string | Dir

record world =
  fs :: "string \<rightharpoonup> node"
  downloads :: "(string \<times> string) list"

definition os_makedirs_exist_ok :: "string \<Rightarrow> world \<Rightarrow> (py_error + unit) \<times> world" where
  "os_makedirs_exist_ok p w =
     (case fs w p of
        None \<Rightarrow> (Inr (), w\<lparr>fs := (fs w)(p \<mapsto> Dir)\<rparr>)
      | Some Dir \<Rightarrow> (Inr (), w)
      | Some (File c) \<Rightarrow> (Inl FileExistsError, w))"

definition os_path_exists :: "string \<Rightarrow> world \<Rightarrow> bool" where
  "os_path_exists p w = (fs w p \<noteq> None)"

definition gdown_download ::
  "(string \<Rightarrow> py_error + string option) \<Rightarrow> string \<Rightarrow> string \<Rightarrow> world
     \<Rightarrow> (py_error + unit) \<times> world" where
  "gdown_download remote url output w =
     (let w1 = w\<lparr>downloads := downloads w @ [(url, output)]\<rparr>
      in case remote url of
           Inl e \<Rightarrow> (Inl e, w1)
         | Inr None \<Rightarrow> (Inr (), w1)
         | Inr (Some bytes) \<Rightarrow> (Inr (), w1\<lparr>fs := (fs w1)(output \<mapsto> File bytes)\<rparr>))"

definition cnn_id :: string where
  "cnn_id = ''1x9t4iiOryE2jNJ8OCcWgkbNe17YXlPnU''"

definition xception_id :: string where
  "xception_id = ''10tcxflFgOtgrTXDR_fMj_3Dr4oM_rbsm''"

definition cnn_path :: string where
  "cnn_path = ''models/cnn_model.h5''"

definition xception_path :: string where
  "xception_path = ''models/xception_model.weights.h5''"

definition drive_url :: "string \<Rightarrow> string" where
  "drive_url file_id = ''https://drive.google.com/uc?id='' @ file_id"

text \<open>
  The result is the exception that ended the call or the returned pair, with the world
  as the call leaves it.
\<close>

definition download_models ::
  "(string \<Rightarrow> py_error + string option) \<Rightarrow> world \<Rightarrow> (py_error + string \<times> string) \<times> world" where
  "download_models remote w =
     (case os_makedirs_exist_ok ''models'' w of
        (Inl e, w1) \<Rightarrow> (Inl e, w1)
      | (Inr u, w1) \<Rightarrow>
          (case (if \<not> os_path_exists cnn_path w1
                 then gdown_download remote (drive_url cnn_id) cnn_path w1
                 else (Inr (), w1)) of
             (Inl e, w2) \<Rightarrow> (Inl e, w2)
           | (Inr u, w2) \<Rightarrow>
               (case (if \<not> os_path_exists xception_path w2
                      then gdown_download remote (drive_url xception_id) xception_path w2
                      else (Inr (), w2)) of
                  (Inl e, w3) \<Rightarrow> (Inl e, w3)
                | (Inr u, w3) \<Rightarrow> (Inr (cnn_path, xception_path), w3))))"

text \<open>The shape that both download blocks of download_models share.\<close>

definition fetch_if_missing ::
  "(string \<Rightarrow> py_error + string option) \<Rightarrow> string \<Rightarrow> string \<Rightarrow> world \<Rightarrow> (py_error + unit) \<times> world" where
  "fetch_if_missing remote file_id p w =
     (if \<not> os_path_exists p w then gdown_download remote (drive_url file_id) p w else (Inr (), w))"

subsection \<open>Images, the uploaded file and the libraries\<close>

text \<open>
  An 8-bit image is rows of pixels of channel bytes; a float array has the same nesting
  over reals; a batch is a list of such arrays. The uploaded file (Streamlit's
  \<open>UploadedFile\<close>) has a name and its bytes.
\<close>

type_synonym pil = "8 word list list list"
type_synonym rgbf = "real list list list"
type_synonym batch = "real list list list list"

record upload =
  name :: string
  getbuffer :: string

definition has_shape3 :: "nat \<Rightarrow> nat \<Rightarrow> nat \<Rightarrow> 'a list list list \<Rightarrow> bool" where
  "has_shape3 h w c a =
     (length a = h \<and> list_all (\<lambda>row. length row = w \<and> list_all (\<lambda>px. length px = c) row) a)"

definition has_shape4 :: "nat \<Rightarrow> nat \<Rightarrow> nat \<Rightarrow> nat \<Rightarrow> 'a list list list list \<Rightarrow> bool" where
  "has_shape4 n h w c t = (length t = n \<and> list_all (has_shape3 h w c) t)"

definition all_values :: "('a \<Rightarrow> bool) \<Rightarrow> 'a list list list list \<Rightarrow> bool" where
  "all_values P t = list_all (list_all (list_all (list_all P))) t"

text \<open>
  The library calls of the script are parameters. \<open>image_names\<close> lists the attributes
  that the module \<open>tensorflow.keras.preprocessing.image\<close> defines: reading an attribute
  that a module does not define raises AttributeError. \<open>image_to_array\<close> stands for what
  the attribute of that name denotes if the module defines it. \<open>tape_gradient\<close> stands for
  lines 55-62 (the tape watches \<open>img_array\<close>, the model is applied to \<open>img_array\<close>, and
  the gradient of \<open>predictions[:, class_index]\<close> is taken with respect to
  \<open>img_tensor\<close>); it may raise. \<open>open_wb_write\<close> stands for \<open>open(path, 'wb')\<close>
  followed by \<open>f.write(bytes)\<close>, and \<open>cv2_imwrite\<close> for \<open>cv2.imwrite\<close>: which file a
  path string names, whether its directory exists and what is stored are the operating
  system's and OpenCV's to decide, so both are functions on the world that may raise.
\<close>

datatype color_code = COLOR_BGR2RGB | COLOR_RGB2BGR

datatype colormap = COLORMAP_JET

record 'm libs =
  image_names :: "string list"
  load_img :: "upload \<Rightarrow> nat \<times> nat \<Rightarrow> py_error + pil"
  image_to_array :: "pil \<Rightarrow> rgbf"
  tape_gradient :: "'m \<Rightarrow> batch \<Rightarrow> nat \<Rightarrow> py_error + batch"
  tf_abs :: "batch \<Rightarrow> batch"
  tf_reduce_max :: "batch \<Rightarrow> real list list list"
  squeeze :: "real list list list \<Rightarrow> gray"
  cv2_resize :: "gray \<Rightarrow> nat \<times> nat \<Rightarrow> gray"
  GaussianBlur :: "gray \<Rightarrow> nat \<times> nat \<Rightarrow> real \<Rightarrow> gray"
  applyColorMap :: "8 word list list \<Rightarrow> colormap \<Rightarrow> pil"
  cvtColor :: "pil \<Rightarrow> color_code \<Rightarrow> pil"
  cv2_resize_image :: "pil \<Rightarrow> nat \<times> nat \<Rightarrow> pil"
  open_wb_write :: "string \<Rightarrow> string \<Rightarrow> world \<Rightarrow> (py_error + unit) \<times> world"
  cv2_imwrite :: "string \<Rightarrow> pil \<Rightarrow> world \<Rightarrow> (py_error + unit) \<times> world"

definition image_attr :: "'m libs \<Rightarrow> string \<Rightarrow> 'f \<Rightarrow> py_error + 'f" where
  "image_attr L attr f = (if attr \<in> set (image_names L) then Inr f else Inl AttributeError)"

definition bind_err :: "py_error + 'a \<Rightarrow> ('a \<Rightarrow> py_error + 'b) \<Rightarrow> py_error + 'b" where
  "bind_err x f = (case x of Inl e \<Rightarrow> Inl e | Inr v \<Rightarrow> f v)"

subsection \<open>Model choice and preprocessing (lines 191-204)\<close>

datatype variant = Xception | CustomCNN

definition select_model :: "string \<Rightarrow> variant \<times> (nat \<times> nat)" where
  "select_model selected_model =
     (if selected_model = ''Transfer Learning - Xception''
      then (Xception, (299, 299))
      else (CustomCNN, (224, 224)))"

text \<open>
  The input each classifier expects, without the batch axis. For Xception it is
  \<open>img_shape\<close> of load_xception_model (line 105), which line 118 builds the network with.
\<close>

definition img_shape :: "nat \<times> nat \<times> nat" where
  "img_shape = (299, 299, 3)"

text \<open>
  Modelled from the spec: the input layer of the custom CNN is stored in the file
  models/cnn_model.h5, which is not part of the sources; the spec gives its input size as
  224 x 224, on three channels.
\<close>

definition cnn_input_shape :: "nat \<times> nat \<times> nat" where
  "cnn_input_shape = (224, 224, 3)"

definition expected_input :: "variant \<Rightarrow> nat \<times> nat \<times> nat" where
  "expected_input v = (case v of Xception \<Rightarrow> img_shape | CustomCNN \<Rightarrow> cnn_input_shape)"

text \<open>
  \<open>image.img_to_array\<close> turns the bytes of an RGB image into floats of the same value;
  \<open>np.expand_dims(a, axis=0)\<close> wraps the array in a batch of one; \<open>img_array /= 255.0\<close>
  divides every entry.
\<close>

definition img_to_array :: "pil \<Rightarrow> rgbf" where
  "img_to_array im = map (map (map (\<lambda>b. real (unat b)))) im"

definition expand_dims0 :: "rgbf \<Rightarrow> batch" where
  "expand_dims0 a = [a]"

definition div_255 :: "batch \<Rightarrow> batch" where
  "div_255 t = map (map (map (map (\<lambda>v. v / 255)))) t"

text \<open>Lines 201-204; the result is the global \<open>img\<close> and \<open>img_array\<close>.\<close>

definition preprocess :: "'m libs \<Rightarrow> upload \<Rightarrow> nat \<times> nat \<Rightarrow> py_error + pil \<times> batch" where
  "preprocess L uploaded_file img_size =
     bind_err (image_attr L ''load_img'' (load_img L)) (\<lambda>load.
     bind_err (load uploaded_file img_size) (\<lambda>img.
     bind_err (image_attr L ''img_to_array'' img_to_array) (\<lambda>to_array.
       Inr (img, div_255 (expand_dims0 (to_array img))))))"

subsection \<open>Saliency map: the composite and the files (generate_saliency_map, lines 54-102)\<close>

text \<open>
  \<open>np.uint8(x)\<close> and \<open>x.astype(np.uint8)\<close> drop the fractional part and keep the low
  eight bits.
\<close>

definition np_uint8 :: "real \<Rightarrow> 8 word" where
  "np_uint8 v = word_of_int (if 0 \<le> v then \<lfloor>v\<rfloor> else \<lceil>v\<rceil>)"

definition astype_uint8 :: "rgbf \<Rightarrow> pil" where
  "astype_uint8 a = map (map (map np_uint8)) a"

text \<open>
  Line 92, \<open>heatmap * 0.7 + original_img * 0.3\<close>, entry by entry. The two arrays must
  agree in shape; the model raises ValueError otherwise (NumPy would also accept shapes
  that broadcast).
\<close>

definition blend_px :: "8 word \<Rightarrow> real \<Rightarrow> real" where
  "blend_px h orig = real (unat h) * 0.7 + orig * 0.3"

definition blend :: "pil \<Rightarrow> rgbf \<Rightarrow> py_error + rgbf" where
  "blend heatmap original_img =
     (if map (map length) heatmap = map (map length) original_img
      then Inr (map2 (map2 (map2 blend_px)) heatmap original_img)
      else Inl ValueError)"

text \<open>Lines 55-93, with \<open>img\<close> the global image that line 201 loaded.\<close>

definition saliency_composite ::
  "'m libs \<Rightarrow> pil \<Rightarrow> 'm \<Rightarrow> batch \<Rightarrow> nat \<Rightarrow> nat \<times> nat \<Rightarrow> py_error + pil" where
  "saliency_composite L img model img_array class_index img_size =
     bind_err (tape_gradient L model img_array class_index) (\<lambda>gradients.
       let gradients = tf_abs L gradients;
           gradients = tf_reduce_max L gradients;
           gradients = squeeze L gradients;
           gradients = cv2_resize L gradients img_size
       in bind_err (mask_normalize_threshold gradients) (\<lambda>gradients.
            let gradients = GaussianBlur L gradients (11, 11) 0;
                heatmap = applyColorMap L (map (map (\<lambda>v. np_uint8 (255 * v))) gradients) COLORMAP_JET;
                heatmap = cvtColor L heatmap COLOR_BGR2RGB;
                heatmap = cv2_resize_image L heatmap img_size
            in bind_err (image_attr L ''image_to_array'' (image_to_array L)) (\<lambda>to_array.
                 let original_img = to_array img
                 in bind_err (blend heatmap original_img) (\<lambda>superimposed_img.
                      Inr (astype_uint8 superimposed_img)))))"

text \<open>
  \<open>os.path.join(a, b)\<close> for two components (posixpath): an absolute second component
  replaces the first.
\<close>

definition os_path_join :: "string \<Rightarrow> string \<Rightarrow> string" where
  "os_path_join a b =
     (if take 1 b = ''/'' then b
      else if a = [] \<or> last a = CHR ''/'' then a @ b
      else a @ ''/'' @ b)"

definition output_dir :: string where
  "output_dir = ''saliency_maps''"

text \<open>Lines 95-101, with \<open>uploaded_file\<close> the global of line 182.\<close>

definition save_outputs :: "'m libs \<Rightarrow> upload \<Rightarrow> pil \<Rightarrow> world \<Rightarrow> (py_error + unit) \<times> world" where
  "save_outputs L uploaded_file superimposed_img w =
     (let img_path = os_path_join output_dir (name uploaded_file)
      in case open_wb_write L img_path (getbuffer uploaded_file) w of
           (Inl e, w1) \<Rightarrow> (Inl e, w1)
         | (Inr u, w1) \<Rightarrow>
             (let saliency_map_path = ''saliency_maps/'' @ name uploaded_file
              in cv2_imwrite L saliency_map_path (cvtColor L superimposed_img COLOR_RGB2BGR) w1))"

definition generate_saliency_map ::
  "'m libs \<Rightarrow> pil \<Rightarrow> upload \<Rightarrow> 'm \<Rightarrow> batch \<Rightarrow> nat \<Rightarrow> nat \<times> nat \<Rightarrow> world
     \<Rightarrow> (py_error + pil) \<times> world" where
  "generate_saliency_map L img uploaded_file model img_array class_index img_size w =
     (case saliency_composite L img model img_array class_index img_size of
        Inl e \<Rightarrow> (Inl e, w)
      | Inr superimposed_img \<Rightarrow>
          (case save_outputs L uploaded_file superimposed_img w of
             (Inl e, w1) \<Rightarrow> (Inl e, w1)
           | (Inr u, w1) \<Rightarrow> (Inr superimposed_img, w1)))"

subsection \<open>A small stand-in for the libraries\<close>

text \<open>
  Modelled from the Keras API documentation (the library is not part of the sources):
  the names that the module \<open>tensorflow.keras.preprocessing.image\<close> defines.
\<close>

definition keras_image_names :: "string list" where
  "keras_image_names =
     [''DirectoryIterator'', ''ImageDataGenerator'', ''Iterator'', ''NumpyArrayIterator'',
      ''apply_affine_transform'', ''apply_brightness_shift'', ''apply_channel_shift'',
      ''array_to_img'', ''img_to_array'', ''load_img'', ''random_brightness'',
      ''random_channel_shift'', ''random_rotation'', ''random_shear'', ''random_shift'',
      ''random_zoom'', ''save_img'', ''smart_resize'']"

text \<open>
  Concrete library functions on which the definitions can be run: a black image of the
  requested size for every upload, a constant gradient, identity resizing and blurring,
  a grey colour map, channel reversal, and a storage medium that takes no write
  (\<open>open\<close> raises, \<open>cv2.imwrite\<close> returns False).
\<close>

definition stub_libs :: "unit libs" where
  "stub_libs =
     \<lparr>image_names = keras_image_names,
      load_img = (\<lambda>u sz. Inr (replicate (fst sz) (replicate (snd sz) [0, 0, 0]))),
      image_to_array = img_to_array,
      tape_gradient = (\<lambda>m x k. Inr (map (map (map (map (\<lambda>v. v + 1)))) x)),
      tf_abs = map (map (map (map abs))),
      tf_reduce_max = map (map (map (\<lambda>px. fold max px 0))),
      squeeze = concat,
      cv2_resize = (\<lambda>g sz. g),
      GaussianBlur = (\<lambda>g k sigma. g),
      applyColorMap = (\<lambda>g c. map (map (\<lambda>b. [b, b, b])) g),
      cvtColor = (\<lambda>im c. map (map rev) im),
      cv2_resize_image = (\<lambda>im sz. im),
      open_wb_write = (\<lambda>path bytes w. (Inl OSError, w)),
      cv2_imwrite = (\<lambda>path im w. (Inr (), w))\<rparr>"

text \<open>
  Modelled from the TensorFlow API documentation (the library is not part of the
  sources): \<open>GradientTape.watch\<close> raises ValueError when its argument is not a tensor or
  a variable. Line 57 passes \<open>img_array\<close>, the NumPy array of lines 202-204, so lines
  55-62 raise.
\<close>

definition tensorflow_libs :: "unit libs" where
  "tensorflow_libs = stub_libs\<lparr>tape_gradient := (\<lambda>m x k. Inl ValueError)\<rparr>"

text \<open>A 2 x 2 image, the tensor that preprocessing makes of it, and a file system.\<close>

definition sample_img :: pil where
  "sample_img = [[[10, 20, 30], [40, 50, 60]], [[70, 80, 90], [100, 110, 120]]]"

definition sample_input :: batch where
  "sample_input = div_255 (expand_dims0 (img_to_array sample_img))"

definition sample_world :: world where
  "sample_world = \<lparr>fs = [''saliency_maps'' \<mapsto> Dir], downloads = []\<rparr>"

section \<open>Properties\<close>

subsection \<open>The argmax index\<close>

lemma argmax_from_spec:
  assumes "i = length ps" and "best < i" and "ps ! best = bv"
    and "\<forall>j < i. ps ! j \<le> bv" and "\<forall>j < best. ps ! j < bv"
  shows "argmax_from xs i best bv < length (ps @ xs)
       \<and> (\<forall>j < length (ps @ xs). (ps @ xs) ! j \<le> (ps @ xs) ! argmax_from xs i best bv)
       \<and> (\<forall>j < argmax_from xs i best bv. (ps @ xs) ! j < (ps @ xs) ! argmax_from xs i best bv)"
  using assms
proof (induction xs arbitrary: ps i best bv)
  case Nil
  then show ?case by simp
next
  case (Cons x xs)
  show ?case
  proof (cases "bv < x")
    case True
    have a: "Suc i = length (ps @ [x])" using Cons.prems(1) by simp
    have b: "i < Suc i" by simp
    have c: "(ps @ [x]) ! i = x" using Cons.prems(1) by simp
    have d: "\<forall>j < Suc i. (ps @ [x]) ! j \<le> x"
      using Cons.prems(1,4) True by (auto simp: nth_append less_Suc_eq)
    have e: "\<forall>j < i. (ps @ [x]) ! j < x"
      using Cons.prems(1,4) True by (auto simp: nth_append)
    from Cons.IH [OF a b c d e] True show ?thesis by simp
  next
    case False
    have a: "Suc i = length (ps @ [x])" using Cons.prems(1) by simp
    have b: "best < Suc i" using Cons.prems(2) by simp
    have c: "(ps @ [x]) ! best = bv" using Cons.prems(1,2,3) by (simp add: nth_append)
    have d: "\<forall>j < Suc i. (ps @ [x]) ! j \<le> bv"
      using Cons.prems(1,4) False by (auto simp: nth_append less_Suc_eq)
    have e: "\<forall>j < best. (ps @ [x]) ! j < bv"
      using Cons.prems(1,2,5) by (auto simp: nth_append)
    from Cons.IH [OF a b c d e] False show ?thesis by simp
  qed
qed

lemma np_argmax_spec:
  assumes "xs \<noteq> []"
  shows "\<exists>k. np_argmax xs = Inr k \<and> k < length xs
           \<and> (\<forall>j < length xs. xs ! j \<le> xs ! k) \<and> (\<forall>j < k. xs ! j < xs ! k)"
proof -
  from assms obtain x r where xs: "xs = x # r" by (cases xs) auto
  have "argmax_from r 1 0 x < length ([x] @ r)
       \<and> (\<forall>j < length ([x] @ r). ([x] @ r) ! j \<le> ([x] @ r) ! argmax_from r 1 0 x)
       \<and> (\<forall>j < argmax_from r 1 0 x. ([x] @ r) ! j < ([x] @ r) ! argmax_from r 1 0 x)"
    by (rule argmax_from_spec) auto
  then show ?thesis by (simp add: np_argmax_def xs)
qed

text \<open>
  C1. For a prediction vector of length 4 the reported label is the element of
  [Glioma, Meningioma, No Tumor, Pituitary] at the argmax index of the vector: the
  first index whose entry is at least every other entry.
\<close>

theorem reported_label_is_argmax_label:
  assumes "length p = 4"
  shows "\<exists>k. reported_label p = Inr (k, labels ! k) \<and> k < 4
           \<and> (\<forall>j < 4. p ! j \<le> p ! k) \<and> (\<forall>j < k. p ! j < p ! k)"
proof -
  from assms have "p \<noteq> []" by auto
  from np_argmax_spec [OF this] obtain k where k: "np_argmax p = Inr k" "k < length p"
    "\<forall>j < length p. p ! j \<le> p ! k" "\<forall>j < k. p ! j < p ! k" by blast
  have "list_get labels k = Inr (labels ! k)"
    using k(2) assms by (simp add: list_get_def labels_def)
  with k assms show ?thesis by (auto simp: reported_label_def)
qed

theorem reported_label_is_argmax_label_witness:
  "length [0.1, 0.6, 0.2, 0.1 :: real] = 4
   \<and> reported_label [0.1, 0.6, 0.2, 0.1] = Inr (1, ''Meningioma'')"
  using reported_label_is_argmax_label [of "[0.1, 0.6, 0.2, 0.1]"]
  by (simp add: reported_label_def np_argmax_def list_get_def labels_def)

subsection \<open>Normalisation inside the mask\<close>

lemma np_max_Max: "xs \<noteq> [] \<Longrightarrow> np_max xs = Inr (Max (set xs))"
  using Max.set_eq_fold [of "hd xs" "tl xs"] by (cases xs) (simp_all add: np_max_def)

lemma np_min_Min: "xs \<noteq> [] \<Longrightarrow> np_min xs = Inr (Min (set xs))"
  using Min.set_eq_fold [of "hd xs" "tl xs"] by (cases xs) (simp_all add: np_min_def)

lemma normalize_brain_cases:
  assumes "xs \<noteq> []"
  shows "normalize_brain xs =
     (if Min (set xs) < Max (set xs)
      then Inr (map (\<lambda>v. (v - Min (set xs)) / (Max (set xs) - Min (set xs))) xs)
      else Inr xs)"
  using assms by (simp add: normalize_brain_def np_max_Max np_min_Min array_div_def comp_def)

lemma normalize_brain_no_zero_division: "normalize_brain xs \<noteq> Inl ZeroDivisionError"
proof (cases "xs = []")
  case True
  then show ?thesis by (simp add: normalize_brain_def np_max_def)
next
  case False
  then show ?thesis by (simp add: normalize_brain_cases)
qed

lemma minmax_unit_interval:
  fixes xs :: "real list"
  assumes "v \<in> set xs" and "Min (set xs) < Max (set xs)"
  shows "0 \<le> (v - Min (set xs)) / (Max (set xs) - Min (set xs))
       \<and> (v - Min (set xs)) / (Max (set xs) - Min (set xs)) \<le> 1"
proof -
  have lo: "Min (set xs) \<le> v" using assms(1) by simp
  have hi: "v \<le> Max (set xs)" using assms(1) by simp
  define mn mx where "mn = Min (set xs)" and "mx = Max (set xs)"
  have pos: "0 < mx - mn" using assms(2) unfolding mn_def mx_def by linarith
  have "0 \<le> v - mn" using lo unfolding mn_def by linarith
  then have a: "0 \<le> (v - mn) / (mx - mn)" using pos by simp
  have "v - mn \<le> mx - mn" using hi unfolding mx_def by linarith
  then have b: "(v - mn) / (mx - mn) \<le> 1" using pos by (simp add: divide_le_eq_1_pos)
  from a b show ?thesis unfolding mn_def mx_def by simp
qed

lemma fill_row_select:
  "length (filter snd (zip r m)) \<le> length ws \<Longrightarrow>
   map fst (filter snd (zip (fill_row r m ws) m)) = take (length (filter snd (zip r m))) ws"
  by (induction r m ws rule: fill_row.induct) (auto split: list.splits)

lemma fill_row_id: "fill_row r m (map fst (filter snd (zip r m)) @ rest) = r"
  by (induction r m "map fst (filter snd (zip r m)) @ rest" arbitrary: rest rule: fill_row.induct)
     (auto split: list.splits)

lemma select_mask_Cons:
  "select_mask (r # rs) (m # ms) = map fst (filter snd (zip r m)) @ select_mask rs ms"
  by (simp add: select_mask_def)

lemma select_scatter:
  "length (select_mask g m) \<le> length ws \<Longrightarrow>
   select_mask (scatter g m ws) m = take (length (select_mask g m)) ws"
proof (induction g m ws rule: scatter.induct)
  case (1 r rs m ms ws)
  let ?c = "length (filter snd (zip r m))"
  have a: "?c \<le> length ws" using "1.prems" by (simp add: select_mask_Cons)
  have b: "length (select_mask rs ms) \<le> length (drop (count_row r m) ws)"
    using "1.prems" by (simp add: select_mask_Cons count_row_def)
  show ?case
    using "1.IH" [OF b] fill_row_select [OF a]
    by (simp add: select_mask_Cons count_row_def take_add)
qed (simp_all add: select_mask_def)

lemma scatter_select: "scatter g m (select_mask g m @ rest) = g"
proof (induction g m "select_mask g m @ rest" arbitrary: rest rule: scatter.induct)
  case (1 r rs m ms)
  have "scatter rs ms (select_mask rs ms @ rest) = rs"
    using "1.hyps" [of rest] by (simp add: select_mask_Cons count_row_def)
  then show ?case
    using fill_row_id [of r m "select_mask rs ms @ rest"]
    by (simp add: select_mask_Cons count_row_def)
qed simp_all


lemma normalize_brain_length:
  assumes "normalize_brain xs = Inr ys"
  shows "length ys = length xs \<and> xs \<noteq> []"
proof (cases "xs = []")
  case True
  with assms show ?thesis by (simp add: normalize_brain_def np_max_def)
next
  case False
  with assms show ?thesis by (auto simp: normalize_brain_cases split: if_splits)
qed

lemma normalize_masked_result:
  assumes "normalize_brain (select_mask (times_mask g (circular_mask g)) (circular_mask g)) = Inr nb"
  shows "normalize_masked g = Inr (scatter (times_mask g (circular_mask g)) (circular_mask g) nb)
       \<and> select_mask (scatter (times_mask g (circular_mask g)) (circular_mask g) nb) (circular_mask g) = nb"
proof -
  let ?m = "circular_mask g"
  let ?k = "times_mask g ?m"
  have len: "length nb = length (select_mask ?k ?m)"
    using normalize_brain_length [OF assms] by simp
  have "select_mask (scatter ?k ?m nb) ?m = take (length (select_mask ?k ?m)) nb"
    by (rule select_scatter) (simp add: len)
  then have sel: "select_mask (scatter ?k ?m nb) ?m = nb" by (simp add: len)
  have "normalize_masked g = Inr (scatter ?k ?m nb)"
    using assms len by (simp add: normalize_masked_def put_mask_def Let_def)
  with sel show ?thesis by simp
qed

text \<open>
  C2. With b the gradient values inside the circular mask (line 76): when max b > min b,
  lines 77-80 leave in the masked positions the min-max normalised values
  (v - min) / (max - min), each in [0,1]; when max b = min b the normalisation is skipped
  and the array is the masked array of line 74 unchanged; in no case is the division
  performed with a zero denominator.
\<close>

theorem normalize_masked_minmax:
  assumes "b = select_mask (times_mask g (circular_mask g)) (circular_mask g)" and "b \<noteq> []"
  shows "(Min (set b) < Max (set b) \<longrightarrow>
            (\<exists>g'. normalize_masked g = Inr g'
               \<and> select_mask g' (circular_mask g)
                   = map (\<lambda>v. (v - Min (set b)) / (Max (set b) - Min (set b))) b
               \<and> list_all (\<lambda>v. 0 \<le> v \<and> v \<le> 1) (select_mask g' (circular_mask g))))
       \<and> (Max (set b) = Min (set b) \<longrightarrow>
            normalize_masked g = Inr (times_mask g (circular_mask g)))
       \<and> normalize_masked g \<noteq> Inl ZeroDivisionError"
proof -
  let ?m = "circular_mask g"
  let ?k = "times_mask g ?m"
  let ?f = "\<lambda>v. (v - Min (set b)) / (Max (set b) - Min (set b))"
  have one: "Min (set b) < Max (set b) \<longrightarrow>
            (\<exists>g'. normalize_masked g = Inr g' \<and> select_mask g' ?m = map ?f b
               \<and> list_all (\<lambda>v. 0 \<le> v \<and> v \<le> 1) (select_mask g' ?m))"
  proof
    assume lt: "Min (set b) < Max (set b)"
    have nb: "normalize_brain (select_mask ?k ?m) = Inr (map ?f b)"
      using assms lt normalize_brain_cases [of b] by simp
    have unit: "list_all (\<lambda>v. 0 \<le> v \<and> v \<le> 1) (map ?f b)"
      using minmax_unit_interval [OF _ lt] by (simp add: list_all_iff)
    from normalize_masked_result [OF nb] unit
    show "\<exists>g'. normalize_masked g = Inr g' \<and> select_mask g' ?m = map ?f b
               \<and> list_all (\<lambda>v. 0 \<le> v \<and> v \<le> 1) (select_mask g' ?m)"
      by simp
  qed
  have two: "Max (set b) = Min (set b) \<longrightarrow> normalize_masked g = Inr ?k"
  proof
    assume eq: "Max (set b) = Min (set b)"
    have nb: "normalize_brain (select_mask ?k ?m) = Inr (select_mask ?k ?m)"
      using assms eq normalize_brain_cases [of b] by simp
    have "scatter ?k ?m (select_mask ?k ?m) = ?k"
      using scatter_select [of ?k ?m "[]"] by simp
    with normalize_masked_result [OF nb] show "normalize_masked g = Inr ?k" by simp
  qed
  have three: "normalize_masked g \<noteq> Inl ZeroDivisionError"
    using normalize_brain_no_zero_division [of "select_mask ?k ?m"]
    by (auto simp: normalize_masked_def put_mask_def Let_def split: sum.splits if_splits)
  from one two three show ?thesis by blast
qed

theorem normalize_masked_minmax_witness:
  "normalize_masked [[1, 2], [3, 4]] = Inr [[0, 1 / 3], [2 / 3, 1]]
   \<and> list_all (\<lambda>v. 0 \<le> v \<and> v \<le> 1)
        (select_mask [[0, 1 / 3], [2 / 3, 1]] (circular_mask [[1, 2], [3, 4 :: real]]))
   \<and> normalize_masked [[5, 5], [5, 5]] = Inr [[5, 5], [5, 5]]"
proof -
  have m: "circular_mask [[1, 2], [3, 4 :: real]] = [[True, True], [True, True]]"
    "circular_mask [[5, 5], [5, 5 :: real]] = [[True, True], [True, True]]"
    by (simp_all add: circular_mask_def mask_at_def center_def radius_def shape0_def shape1_def
        upt_rec [of 0] upt_rec [of 1])
  have b1: "[1, 2, 3, 4] = select_mask (times_mask [[1, 2], [3, 4]] (circular_mask [[1, 2], [3, 4 :: real]]))
      (circular_mask [[1, 2], [3, 4 :: real]])"
    by (simp add: m select_mask_def times_mask_def)
  have b2: "[5, 5, 5, 5] = select_mask (times_mask [[5, 5], [5, 5]] (circular_mask [[5, 5], [5, 5 :: real]]))
      (circular_mask [[5, 5], [5, 5 :: real]])"
    by (simp add: m select_mask_def times_mask_def)
  have n1: "normalize_masked [[1, 2], [3, 4]] = Inr [[0, 1 / 3], [2 / 3, 1]]"
    by (simp add: normalize_masked_def m normalize_brain_def np_max_def np_min_def array_div_def
        put_mask_def select_mask_def times_mask_def count_row_def)
  have lt: "Min (set [1, 2, 3, 4 :: real]) < Max (set [1, 2, 3, 4])" by simp
  have eq: "Max (set [5, 5, 5, 5 :: real]) = Min (set [5, 5, 5, 5])" by simp
  have ne: "[1, 2, 3, 4 :: real] \<noteq> []" "[5, 5, 5, 5 :: real] \<noteq> []" by simp_all
  from normalize_masked_minmax [OF b1 ne(1)] lt
  have "\<exists>g'. normalize_masked [[1, 2], [3, 4]] = Inr g'
          \<and> list_all (\<lambda>v. 0 \<le> v \<and> v \<le> 1) (select_mask g' (circular_mask [[1, 2], [3, 4 :: real]]))"
    by blast
  with n1 have u: "list_all (\<lambda>v. 0 \<le> v \<and> v \<le> 1)
        (select_mask [[0, 1 / 3], [2 / 3, 1]] (circular_mask [[1, 2], [3, 4 :: real]]))"
    by auto
  from normalize_masked_minmax [OF b2 ne(2)] eq
  have "normalize_masked [[5, 5], [5, 5]] = Inr (times_mask [[5, 5], [5, 5]] (circular_mask [[5, 5], [5, 5 :: real]]))"
    by blast
  then have n2: "normalize_masked [[5, 5], [5, 5]] = Inr [[5, 5], [5, 5]]"
    by (simp add: m times_mask_def)
  from n1 u n2 show ?thesis by blast
qed

subsection \<open>The mask is not empty; the threshold\<close>

lemma rect_shape:
  assumes "rect h w g" and "0 < h"
  shows "shape0 g = h" and "shape1 g = w" and "\<forall>y < h. length (g ! y) = w"
proof -
  from assms obtain r rs where g: "g = r # rs" by (cases g) (auto simp: rect_def)
  show "shape0 g = h" using assms by (simp add: rect_def shape0_def)
  show "shape1 g = w" using assms g by (simp add: rect_def shape1_def)
  show "\<forall>y < h. length (g ! y) = w" using assms by (auto simp: rect_def list_all_length)
qed

lemma circular_mask_nth:
  assumes "y < shape0 g" and "x < shape1 g"
  shows "length (circular_mask g) = shape0 g"
    and "length (circular_mask g ! y) = shape1 g"
    and "circular_mask g ! y ! x = mask_at (center g) (radius g) y x"
  using assms by (simp_all add: circular_mask_def)

lemma mask_at_center: "mask_at c r (snd c) (fst c)"
  by (simp add: mask_at_def)

lemma select_mask_nonempty:
  assumes "y < length g" and "y < length m" and "x < length (g ! y)" and "x < length (m ! y)"
    and "m ! y ! x"
  shows "select_mask g m \<noteq> []"
proof -
  let ?f = "\<lambda>row mrow. map fst (filter snd (zip row mrow))"
  have "(g ! y ! x, m ! y ! x) \<in> set (zip (g ! y) (m ! y))"
    using assms(3,4) by (auto simp: set_zip)
  then have "(g ! y ! x, True) \<in> set (filter snd (zip (g ! y) (m ! y)))"
    using assms(5) by simp
  then have ne: "?f (g ! y) (m ! y) \<noteq> []" by (force simp: filter_empty_conv)
  have mem: "(g ! y, m ! y) \<in> set (zip g m)" using assms(1,2) by (auto simp: set_zip)
  have "\<exists>p \<in> set (zip g m). (case p of (row, mrow) \<Rightarrow> ?f row mrow) \<noteq> []"
    by (rule bexI [OF _ mem]) (use ne in simp)
  then show ?thesis by (simp add: select_mask_def)
qed

lemma times_mask_nth:
  assumes "y < length g" and "y < length m"
  shows "length (times_mask g m) = min (length g) (length m)"
    and "length (times_mask g m ! y) = min (length (g ! y)) (length (m ! y))"
  using assms by (simp_all add: times_mask_def)

lemma mask_selects_center:
  assumes "rect h w g" and "w div 2 < h" and "h div 2 < w"
  shows "select_mask (times_mask g (circular_mask g)) (circular_mask g) \<noteq> []"
proof -
  have h: "0 < h" using assms(2) by simp
  note sh = rect_shape [OF assms(1) h]
  let ?y = "w div 2" and ?x = "h div 2"
  have c: "center g = (?x, ?y)" by (simp add: center_def sh)
  have y: "?y < shape0 g" and x: "?x < shape1 g" using assms sh by simp_all
  note cm = circular_mask_nth [OF y x]
  have yl: "?y < length g" using y by (simp add: shape0_def)
  have ym: "?y < length (circular_mask g)" using cm(1) y by simp
  note tm = times_mask_nth [OF yl ym]
  have "circular_mask g ! ?y ! ?x" using cm(3) mask_at_center [of "center g" "radius g"] c by simp
  moreover have "?y < length (times_mask g (circular_mask g))" using tm(1) yl ym by simp
  moreover have "?x < length (times_mask g (circular_mask g) ! ?y)"
    using tm(2) cm(2) sh(2,3) assms(2,3) by simp
  moreover have "?x < length (circular_mask g ! ?y)" using cm(2) x by simp
  ultimately show ?thesis using ym by (intro select_mask_nonempty [of ?y _ _ ?x]) simp_all
qed

lemma percentile_defined: "a \<noteq> [] \<Longrightarrow> \<exists>t. np_percentile80 a = Inr t"
  by (simp add: np_percentile80_def Let_def)

text \<open>The threshold lies between the smallest and the largest of the masked values.\<close>

lemma percentile_between:
  assumes "np_percentile80 a = Inr t"
  shows "Min (set a) \<le> t \<and> t \<le> Max (set a)"
proof -
  have ne: "a \<noteq> []" using assms by (auto simp: np_percentile80_def split: if_splits)
  define s where "s = sort a"
  define n where "n = length a"
  define lo where "lo = (4 * (n - 1)) div 5"
  define hi where "hi = min (lo + 1) (n - 1)"
  define f :: real where "f = real ((4 * (n - 1)) mod 5) / 5"
  have n: "0 < n" using ne by (simp add: n_def)
  have "np_percentile80 a = Inr (s ! lo + f * (s ! hi - s ! lo))"
    using ne unfolding np_percentile80_def Let_def s_def n_def lo_def hi_def f_def by simp
  with assms have t: "t = s ! lo + f * (s ! hi - s ! lo)" by simp
  have lo: "lo \<le> n - 1" unfolding lo_def by simp
  have lohi: "lo \<le> hi" and hin: "hi < n" using lo n unfolding hi_def by simp_all
  have len: "length s = n" by (simp add: s_def n_def)
  have "sorted s" by (simp add: s_def)
  then have mono: "s ! lo \<le> s ! hi" using lohi hin len by (simp add: sorted_nth_mono)
  have f0: "0 \<le> f" and f1: "f \<le> 1" unfolding f_def by simp_all
  have a: "s ! lo \<le> t" unfolding t using mono f0 by simp
  have "f * (s ! hi - s ! lo) \<le> 1 * (s ! hi - s ! lo)"
    using f1 mono by (intro mult_right_mono) simp_all
  then have b: "t \<le> s ! hi" unfolding t by simp
  have lon: "lo < n" using lohi hin by simp
  have "s ! lo \<in> set s" "s ! hi \<in> set s"
    using lon hin len by simp_all
  then have "s ! lo \<in> set a" "s ! hi \<in> set a" by (simp_all add: s_def)
  then have "Min (set a) \<le> s ! lo" "s ! hi \<le> Max (set a)" by simp_all
  with a b show ?thesis by linarith
qed

lemma pipeline_succeeds:
  assumes "select_mask (times_mask g (circular_mask g)) (circular_mask g) \<noteq> []"
  shows "\<exists>n t. normalize_masked g = Inr n
             \<and> np_percentile80 (select_mask n (circular_mask g)) = Inr t
             \<and> mask_normalize_threshold g = Inr (zero_below n t)"
proof -
  let ?b = "select_mask (times_mask g (circular_mask g)) (circular_mask g)"
  obtain nb where nb: "normalize_brain ?b = Inr nb"
    using normalize_brain_cases [OF assms] by (cases "Min (set ?b) < Max (set ?b)") simp_all
  note res = normalize_masked_result [OF nb]
  have "nb \<noteq> []" using normalize_brain_length [OF nb] by auto
  then obtain t where t: "np_percentile80 nb = Inr t" using percentile_defined by blast
  show ?thesis
    using res t by (simp add: mask_normalize_threshold_def threshold_masked_def)
qed

text \<open>
  C10. For a gradient image of either display size, 224 x 224 or 299 x 299, the circular
  mask of radius min(height, width) div 2 - 10 selects at least one pixel; so \<open>max\<close> and
  \<open>min\<close> of line 77 and the percentile of line 82 are taken over non-empty arrays and
  lines 69-83 run through without raising.
\<close>

theorem circular_mask_selects_pixels:
  assumes "s = 224 \<or> s = 299" and "rect s s g"
  shows "select_mask (times_mask g (circular_mask g)) (circular_mask g) \<noteq> []
       \<and> (\<exists>mx mn. np_max (select_mask (times_mask g (circular_mask g)) (circular_mask g)) = Inr mx
                 \<and> np_min (select_mask (times_mask g (circular_mask g)) (circular_mask g)) = Inr mn)
       \<and> (\<exists>n t. normalize_masked g = Inr n
                 \<and> np_percentile80 (select_mask n (circular_mask g)) = Inr t
                 \<and> mask_normalize_threshold g = Inr (zero_below n t))"
proof -
  have "s div 2 < s" using assms(1) by auto
  from mask_selects_center [OF assms(2) this this]
  have ne: "select_mask (times_mask g (circular_mask g)) (circular_mask g) \<noteq> []" .
  from ne pipeline_succeeds [OF ne] np_max_Max [OF ne] np_min_Min [OF ne]
  show ?thesis by simp
qed

theorem circular_mask_selects_pixels_witness:
  "rect 224 224 (replicate 224 (replicate 224 (0 :: real)))
   \<and> select_mask (times_mask (replicate 224 (replicate 224 0))
          (circular_mask (replicate 224 (replicate 224 (0 :: real)))))
        (circular_mask (replicate 224 (replicate 224 (0 :: real)))) \<noteq> []"
proof -
  have r: "rect 224 224 (replicate 224 (replicate 224 (0 :: real)))"
    by (simp add: rect_def list_all_iff)
  from circular_mask_selects_pixels [OF _ r] r show ?thesis by simp
qed

lemma zero_below_nth:
  assumes "y < length g" and "x < length (g ! y)"
  shows "length (zero_below g t) = length g"
    and "length (zero_below g t ! y) = length (g ! y)"
    and "zero_below g t ! y ! x = (if g ! y ! x < t then 0 else g ! y ! x)"
  using assms by (simp_all add: zero_below_def)

text \<open>
  C4. Let g be the array that line 80 leaves and t the 80th percentile of its values
  inside the circular mask. After line 83 every entry of g that is strictly below t is
  zero and every entry at or above t is unchanged, at every position of the array.
\<close>

theorem threshold_zeroes_below_percentile:
  assumes "normalize_masked g0 = Inr g"
  shows "\<exists>t r. np_percentile80 (select_mask g (circular_mask g0)) = Inr t
           \<and> mask_normalize_threshold g0 = Inr r
           \<and> length r = length g
           \<and> (\<forall>y < length g. length (r ! y) = length (g ! y)
                \<and> (\<forall>x < length (g ! y).
                      (g ! y ! x < t \<longrightarrow> r ! y ! x = 0)
                    \<and> (t \<le> g ! y ! x \<longrightarrow> r ! y ! x = g ! y ! x)))"
proof -
  let ?b = "select_mask (times_mask g0 (circular_mask g0)) (circular_mask g0)"
  have "?b \<noteq> []"
  proof
    assume "?b = []"
    then have "normalize_masked g0 = Inl ValueError"
      by (simp add: normalize_masked_def normalize_brain_def np_max_def)
    with assms show False by simp
  qed
  from pipeline_succeeds [OF this] assms
  obtain t where t: "np_percentile80 (select_mask g (circular_mask g0)) = Inr t"
    "mask_normalize_threshold g0 = Inr (zero_below g t)" by auto
  have "length (zero_below g t) = length g" by (simp add: zero_below_def)
  moreover have "\<forall>y < length g. length (zero_below g t ! y) = length (g ! y)
                \<and> (\<forall>x < length (g ! y).
                      (g ! y ! x < t \<longrightarrow> zero_below g t ! y ! x = 0)
                    \<and> (t \<le> g ! y ! x \<longrightarrow> zero_below g t ! y ! x = g ! y ! x))"
    by (simp add: zero_below_def)
  ultimately show ?thesis using t by blast
qed

theorem threshold_zeroes_below_percentile_witness:
  "normalize_masked [[1, 2], [3, 4]] = Inr [[0, 1 / 3], [2 / 3, 1]]
   \<and> np_percentile80 (select_mask [[0, 1 / 3], [2 / 3, 1]] (circular_mask [[1, 2], [3, 4 :: real]]))
       = Inr (4 / 5)
   \<and> mask_normalize_threshold [[1, 2], [3, 4]] = Inr [[0, 0], [0, 1]]"
proof -
  have m: "circular_mask [[1, 2], [3, 4 :: real]] = [[True, True], [True, True]]"
    by (simp add: circular_mask_def mask_at_def center_def radius_def shape0_def shape1_def
        upt_rec [of 0] upt_rec [of 1])
  have n: "normalize_masked [[1, 2], [3, 4]] = Inr [[0, 1 / 3], [2 / 3, 1]]"
    by (simp add: normalize_masked_def m normalize_brain_def np_max_def np_min_def array_div_def
        put_mask_def select_mask_def times_mask_def count_row_def)
  have p: "np_percentile80 (select_mask [[0, 1 / 3], [2 / 3, 1]] [[True, True], [True, True]])
       = Inr (4 / 5)"
    by (simp add: np_percentile80_def select_mask_def Let_def)
  have z: "zero_below [[0, 1 / 3], [2 / 3, 1]] (4 / 5) = [[0, 0], [0, 1]]"
    by (simp add: zero_below_def)
  show ?thesis
    using threshold_zeroes_below_percentile [OF n]
    by (simp add: n m p z mask_normalize_threshold_def threshold_masked_def)
qed

subsection \<open>Start-up\<close>

text \<open>
  C9. The API key is the value of GOOGLE_API_KEY in the process environment when the
  variable is present, otherwise the value in the secrets store; when it is in neither,
  the script ends with the lookup error KeyError and no later step, in particular no
  processing of an upload, takes place.
\<close>

theorem api_key_resolution:
  "(\<forall>v. environ ''GOOGLE_API_KEY'' = Some v \<longrightarrow>
        resolve_api_key environ secrets = Inr (Some v)
      \<and> (\<exists>rest. run_script environ secrets uploaded = (None, GenaiConfigure (Some v) # rest)))
   \<and> (\<forall>v. environ ''GOOGLE_API_KEY'' = None \<and> secrets ''GOOGLE_API_KEY'' = Some v \<longrightarrow>
        resolve_api_key environ secrets = Inr (Some v)
      \<and> (\<exists>rest. run_script environ secrets uploaded = (None, GenaiConfigure (Some v) # rest)))
   \<and> (environ ''GOOGLE_API_KEY'' = None \<and> secrets ''GOOGLE_API_KEY'' = None \<longrightarrow>
        resolve_api_key environ secrets = Inl KeyError
      \<and> run_script environ secrets uploaded = (Some KeyError, []))"
  by (auto simp: resolve_api_key_def run_script_def environ_get_def secrets_getitem_def dom_def)

theorem api_key_resolution_witness:
  "resolve_api_key [''GOOGLE_API_KEY'' \<mapsto> ''k1''] [''GOOGLE_API_KEY'' \<mapsto> ''k2''] = Inr (Some ''k1'')
   \<and> resolve_api_key Map.empty [''GOOGLE_API_KEY'' \<mapsto> ''k2''] = Inr (Some ''k2'')
   \<and> run_script Map.empty Map.empty True = (Some KeyError, [])"
  using api_key_resolution [of "[''GOOGLE_API_KEY'' \<mapsto> ''k1'']" "[''GOOGLE_API_KEY'' \<mapsto> ''k2'']" True]
    api_key_resolution [of Map.empty "[''GOOGLE_API_KEY'' \<mapsto> ''k2'']" True]
    api_key_resolution [of Map.empty Map.empty True]
  by simp

subsection \<open>Model files\<close>

lemma paths_distinct:
  "cnn_path \<noteq> xception_path" "cnn_path \<noteq> ''models''" "xception_path \<noteq> ''models''"
  "xception_path \<noteq> cnn_path" "''models'' \<noteq> cnn_path" "''models'' \<noteq> xception_path"
  by (simp_all add: cnn_path_def xception_path_def)

lemma makedirs_err:
  "os_makedirs_exist_ok p w = (Inl e, w1) \<Longrightarrow> w1 = w \<and> (\<exists>c. fs w p = Some (File c))"
  by (auto simp: os_makedirs_exist_ok_def split: option.splits node.splits)

lemma makedirs_ok:
  assumes "os_makedirs_exist_ok p w = (Inr u, w1)"
  shows "\<forall>c. fs w p \<noteq> Some (File c)" and "downloads w1 = downloads w"
    and "q \<noteq> p \<Longrightarrow> fs w1 q = fs w q" and "fs w q \<noteq> None \<Longrightarrow> fs w1 q = fs w q"
  using assms by (auto simp: os_makedirs_exist_ok_def split: option.splits node.splits)

lemma makedirs_total:
  "(\<forall>c. fs w p \<noteq> Some (File c)) \<Longrightarrow> \<exists>w1. os_makedirs_exist_ok p w = (Inr (), w1)"
  by (auto simp: os_makedirs_exist_ok_def split: option.splits node.splits)

lemma gdown_cases:
  assumes "gdown_download remote url output w = (x, w1)"
  shows "downloads w1 = downloads w @ [(url, output)]"
    and "q \<noteq> output \<Longrightarrow> fs w1 q = fs w q"
    and "isl x \<longleftrightarrow> isl (remote url)"
  using assms by (auto simp: gdown_download_def Let_def split: sum.splits option.splits)

lemma fetch_cases:
  assumes "fetch_if_missing remote file_id p w = (x, w1)"
  shows "downloads w1 = downloads w @ (if fs w p = None then [(drive_url file_id, p)] else [])"
    and "q \<noteq> p \<Longrightarrow> fs w1 q = fs w q"
    and "fs w q \<noteq> None \<Longrightarrow> fs w1 q = fs w q"
    and "isl x \<Longrightarrow> isl (remote (drive_url file_id)) \<and> fs w p = None"
    and "\<not> isl (remote (drive_url file_id)) \<Longrightarrow> x = Inr ()"
proof -
  show "downloads w1 = downloads w @ (if fs w p = None then [(drive_url file_id, p)] else [])"
    using assms gdown_cases(1) [of remote "drive_url file_id" p w x w1]
    by (auto simp: fetch_if_missing_def os_path_exists_def split: if_splits)
  show o: "q \<noteq> p \<Longrightarrow> fs w1 q = fs w q" for q
    using assms gdown_cases(2) [of remote "drive_url file_id" p w x w1 q]
    by (auto simp: fetch_if_missing_def os_path_exists_def split: if_splits)
  have k: "fs w p \<noteq> None \<Longrightarrow> fs w1 p = fs w p"
    using assms by (auto simp: fetch_if_missing_def os_path_exists_def split: if_splits)
  show "fs w q \<noteq> None \<Longrightarrow> fs w1 q = fs w q"
    using o [of q] k by (cases "q = p") simp_all
  show "isl x \<Longrightarrow> isl (remote (drive_url file_id)) \<and> fs w p = None"
    using assms gdown_cases(3) [of remote "drive_url file_id" p w x w1]
    by (auto simp: fetch_if_missing_def os_path_exists_def split: if_splits)
  show "\<not> isl (remote (drive_url file_id)) \<Longrightarrow> x = Inr ()"
    using assms gdown_cases(3) [of remote "drive_url file_id" p w x w1]
    by (cases x) (auto simp: fetch_if_missing_def os_path_exists_def split: if_splits)
qed

lemma download_models_unfold:
  "download_models remote w =
     (case os_makedirs_exist_ok ''models'' w of
        (Inl e, w1) \<Rightarrow> (Inl e, w1)
      | (Inr u, w1) \<Rightarrow>
          (case fetch_if_missing remote cnn_id cnn_path w1 of
             (Inl e, w2) \<Rightarrow> (Inl e, w2)
           | (Inr u, w2) \<Rightarrow>
               (case fetch_if_missing remote xception_id xception_path w2 of
                  (Inl e, w3) \<Rightarrow> (Inl e, w3)
                | (Inr u, w3) \<Rightarrow> (Inr (cnn_path, xception_path), w3))))"
  by (simp only: download_models_def fetch_if_missing_def)

text \<open>
  C7. download_models calls the downloader for a weight file only when its cache path
  did not exist, never touches a path that existed, and the value it returns is always
  the pair (models/cnn_model.h5, models/xception_model.weights.h5): it returns it
  whenever neither \<open>os.makedirs\<close> nor a download raises, and then the downloads made
  are exactly those of the missing paths, in source order.
\<close>

theorem download_models_only_missing:
  assumes "download_models remote w = (res, w')"
  shows "(\<forall>p. res = Inr p \<longrightarrow> p = (''models/cnn_model.h5'', ''models/xception_model.weights.h5''))
       \<and> (\<exists>new. downloads w' = downloads w @ new
              \<and> set new \<subseteq> {(drive_url cnn_id, cnn_path), (drive_url xception_id, xception_path)}
              \<and> (\<forall>(u, p) \<in> set new. fs w p = None))
       \<and> (\<forall>p. fs w p \<noteq> None \<longrightarrow> fs w' p = fs w p)
       \<and> ((\<forall>c. fs w ''models'' \<noteq> Some (File c)) \<and> \<not> isl (remote (drive_url cnn_id))
            \<and> \<not> isl (remote (drive_url xception_id)) \<longrightarrow>
            res = Inr (''models/cnn_model.h5'', ''models/xception_model.weights.h5'')
          \<and> downloads w' = downloads w
               @ (if fs w cnn_path = None then [(drive_url cnn_id, cnn_path)] else [])
               @ (if fs w xception_path = None then [(drive_url xception_id, xception_path)] else []))"
proof -
  let ?pair = "(''models/cnn_model.h5'', ''models/xception_model.weights.h5'')"
  let ?c = "(drive_url cnn_id, cnn_path)" and ?x = "(drive_url xception_id, xception_path)"
  let ?lc = "if fs w cnn_path = None then [?c] else []"
  let ?lx = "if fs w xception_path = None then [?x] else []"
  have pair: "(cnn_path, xception_path) = ?pair" by (simp add: cnn_path_def xception_path_def)
  obtain x1 w1 where m: "os_makedirs_exist_ok ''models'' w = (x1, w1)" by force
  obtain x2 w2 where c: "fetch_if_missing remote cnn_id cnn_path w1 = (x2, w2)" by force
  obtain x3 w3 where x: "fetch_if_missing remote xception_id xception_path w2 = (x3, w3)" by force
  show ?thesis
  proof (cases x1)
    case (Inl e)
    have r: "res = Inl e" "w' = w1"
      using assms m Inl by (simp_all add: download_models_unfold)
    from makedirs_err [OF m [unfolded Inl]] have w1: "w1 = w" and f: "\<exists>c. fs w ''models'' = Some (File c)"
      by simp_all
    have "downloads w' = downloads w @ []" using r w1 by simp
    then have log: "\<exists>new. downloads w' = downloads w @ new \<and> set new \<subseteq> {?c, ?x}
              \<and> (\<forall>(u, p) \<in> set new. fs w p = None)"
      by (intro exI [of _ "[]"]) simp
    have one: "\<forall>p. res = Inr p \<longrightarrow> p = ?pair" using r by simp
    have three: "\<forall>p. fs w p \<noteq> None \<longrightarrow> fs w' p = fs w p" using w1 r by simp
    have four': "(\<forall>c. fs w ''models'' \<noteq> Some (File c)) \<and> \<not> isl (remote (drive_url cnn_id))
            \<and> \<not> isl (remote (drive_url xception_id)) \<longrightarrow>
            res = Inr ?pair \<and> downloads w' = downloads w @ ?lc @ ?lx"
      using f by blast
    from one log three four' show ?thesis by (intro conjI)
  next
    case r1: (Inr u1)
    note M = makedirs_ok [OF m [unfolded r1]]
    have f1: "fs w1 cnn_path = fs w cnn_path" "fs w1 xception_path = fs w xception_path"
      using M(3) paths_distinct by simp_all
    note C = fetch_cases [OF c]
    have log2: "downloads w2 = downloads w @ ?lc" using C(1) M(2) f1 by simp
    have keep2: "fs w p \<noteq> None \<Longrightarrow> fs w2 p = fs w p" for p
      using M(4) [of p] C(3) [of p] by simp
    have f2: "fs w2 xception_path = fs w xception_path"
      using C(2) [of xception_path] f1 paths_distinct by simp
    show ?thesis
    proof (cases x2)
      case (Inl e)
      have r: "res = Inl e" "w' = w2"
        using assms m c r1 Inl by (simp_all add: download_models_unfold)
      have bad: "isl (remote (drive_url cnn_id))" and none: "fs w cnn_path = None"
        using C(4) Inl f1 by simp_all
      have "downloads w' = downloads w @ [?c]" using log2 none r by simp
      then have log: "\<exists>new. downloads w' = downloads w @ new \<and> set new \<subseteq> {?c, ?x}
              \<and> (\<forall>(u, p) \<in> set new. fs w p = None)"
        using none by (intro exI [of _ "[?c]"]) simp
      have one: "\<forall>p. res = Inr p \<longrightarrow> p = ?pair" using r by simp
      have three: "\<forall>p. fs w p \<noteq> None \<longrightarrow> fs w' p = fs w p" using keep2 r by simp
      have four': "(\<forall>c. fs w ''models'' \<noteq> Some (File c)) \<and> \<not> isl (remote (drive_url cnn_id))
            \<and> \<not> isl (remote (drive_url xception_id)) \<longrightarrow>
            res = Inr ?pair \<and> downloads w' = downloads w @ ?lc @ ?lx"
        using bad by blast
      from one log three four' show ?thesis by (intro conjI)
    next
      case r2: (Inr u2)
      note X = fetch_cases [OF x]
      have w': "w' = w3" and res: "res = (case x3 of Inl e \<Rightarrow> Inl e | Inr u \<Rightarrow> Inr (cnn_path, xception_path))"
        using assms m c x r1 r2 by (cases x3; simp add: download_models_unfold)+
      have log3: "downloads w3 = downloads w @ ?lc @ ?lx" using X(1) log2 f2 by simp
      have keep3: "fs w p \<noteq> None \<Longrightarrow> fs w3 p = fs w p" for p
        using keep2 [of p] X(3) [of p] by simp
      have "set (?lc @ ?lx) \<subseteq> {?c, ?x} \<and> (\<forall>(u, p) \<in> set (?lc @ ?lx). fs w p = None)"
        by auto
      with log3 w' have log: "\<exists>new. downloads w' = downloads w @ new \<and> set new \<subseteq> {?c, ?x}
              \<and> (\<forall>(u, p) \<in> set new. fs w p = None)"
        by (intro exI [of _ "?lc @ ?lx"]) simp
      have one: "\<forall>p. res = Inr p \<longrightarrow> p = ?pair"
        using res pair by (cases x3) simp_all
      have four: "\<not> isl (remote (drive_url xception_id)) \<longrightarrow> res = Inr ?pair"
        using X(5) res pair by auto
      have three: "\<forall>p. fs w p \<noteq> None \<longrightarrow> fs w' p = fs w p" using keep3 w' by simp
      have four': "(\<forall>c. fs w ''models'' \<noteq> Some (File c)) \<and> \<not> isl (remote (drive_url cnn_id))
            \<and> \<not> isl (remote (drive_url xception_id)) \<longrightarrow>
            res = Inr ?pair \<and> downloads w' = downloads w @ ?lc @ ?lx"
        using four log3 w' by simp
      from one log three four' show ?thesis by (intro conjI)
    qed
  qed
qed

theorem download_models_only_missing_witness:
  "fst (download_models (\<lambda>u. Inr (Some ''data''))
          \<lparr>fs = [''models/cnn_model.h5'' \<mapsto> File ''old''], downloads = []\<rparr>)
     = Inr (''models/cnn_model.h5'', ''models/xception_model.weights.h5'')
   \<and> downloads (snd (download_models (\<lambda>u. Inr (Some ''data''))
          \<lparr>fs = [''models/cnn_model.h5'' \<mapsto> File ''old''], downloads = []\<rparr>))
     = [(drive_url xception_id, ''models/xception_model.weights.h5'')]"
proof -
  let ?R = "\<lambda>u :: string. Inr (Some ''data'') :: py_error + string option"
  let ?W = "\<lparr>fs = [''models/cnn_model.h5'' \<mapsto> File ''old''], downloads = []\<rparr>"
  have e: "download_models ?R ?W = (fst (download_models ?R ?W), snd (download_models ?R ?W))"
    by simp
  have h: "(\<forall>c. fs ?W ''models'' \<noteq> Some (File c)) \<and> \<not> isl (?R (drive_url cnn_id))
            \<and> \<not> isl (?R (drive_url xception_id))"
    by simp
  from download_models_only_missing [OF e] h
  have "fst (download_models ?R ?W) = Inr (''models/cnn_model.h5'', ''models/xception_model.weights.h5'')
      \<and> downloads (snd (download_models ?R ?W)) = downloads ?W
           @ (if fs ?W cnn_path = None then [(drive_url cnn_id, cnn_path)] else [])
           @ (if fs ?W xception_path = None then [(drive_url xception_id, xception_path)] else [])"
    by blast
  then show ?thesis by (simp add: cnn_path_def xception_path_def)
qed

subsection \<open>Preprocessing\<close>

lemma byte_range: "0 \<le> (unsigned (b :: 8 word) :: real) \<and> (unsigned b :: real) \<le> 255"
proof -
  have "unat b < 2 ^ 8" using unsigned_less [of b] by simp
  then have "unat b \<le> 255" by simp
  then have "(of_nat (unat b) :: real) \<le> of_nat 255" by (rule iffD2 [OF of_nat_le_iff])
  then have "(unsigned b :: real) \<le> 255" by (simp only: of_nat_unat of_nat_numeral)
  moreover have "0 \<le> (of_nat (unat b) :: real)" by (rule of_nat_0_le_iff)
  then have "0 \<le> (unsigned b :: real)" by (simp only: of_nat_unat)
  ultimately show ?thesis by simp
qed

lemma preprocess_values:
  "all_values (\<lambda>v. 0 \<le> v \<and> v \<le> 1) (div_255 (expand_dims0 (img_to_array im)))"
  by (simp add: all_values_def div_255_def expand_dims0_def img_to_array_def list_all_iff byte_range)

lemma preprocess_shape:
  "has_shape3 h w c im \<Longrightarrow> has_shape4 1 h w c (div_255 (expand_dims0 (img_to_array im)))"
  by (simp add: has_shape4_def has_shape3_def div_255_def expand_dims0_def img_to_array_def list_all_iff)

text \<open>
  C6. When the upload decodes to a three-channel image of the requested size (what
  \<open>load_img\<close> with \<open>target_size\<close> returns for a valid image), lines 201-204 yield a
  tensor of the shape the selected classifier expects, (1, 299, 299, 3) for Xception and
  (1, 224, 224, 3) for the custom CNN, and every entry lies in [0,1].
\<close>

theorem preprocess_shape_and_range:
  assumes "''load_img'' \<in> set (image_names L)" and "''img_to_array'' \<in> set (image_names L)"
    and "select_model selected_model = (v, img_size)"
    and "load_img L uploaded_file img_size = Inr im"
    and "has_shape3 (fst img_size) (snd img_size) 3 im"
  shows "\<exists>t. preprocess L uploaded_file img_size = Inr (im, t)
           \<and> (case expected_input v of (h, w, c) \<Rightarrow> has_shape4 1 h w c t)
           \<and> (v = Xception \<longrightarrow> has_shape4 1 299 299 3 t)
           \<and> (v = CustomCNN \<longrightarrow> has_shape4 1 224 224 3 t)
           \<and> all_values (\<lambda>x. 0 \<le> x \<and> x \<le> 1) t"
proof -
  let ?t = "div_255 (expand_dims0 (img_to_array im))"
  have p: "preprocess L uploaded_file img_size = Inr (im, ?t)"
    using assms(1,2,4) by (simp add: preprocess_def bind_err_def image_attr_def)
  have sz: "(v = Xception \<and> img_size = (299, 299)) \<or> (v = CustomCNN \<and> img_size = (224, 224))"
    using assms(3) by (auto simp: select_model_def split: if_splits)
  have sh: "has_shape4 1 (fst img_size) (snd img_size) 3 ?t"
    using preprocess_shape [OF assms(5)] .
  from sz sh have e: "case expected_input v of (h, w, c) \<Rightarrow> has_shape4 1 h w c ?t"
    by (auto simp: expected_input_def img_shape_def cnn_input_shape_def)
  from sz sh have x: "v = Xception \<longrightarrow> has_shape4 1 299 299 3 ?t"
    and c: "v = CustomCNN \<longrightarrow> has_shape4 1 224 224 3 ?t" by auto
  from p e x c preprocess_values [of im] show ?thesis by (intro exI [of _ ?t] conjI)
qed

theorem preprocess_shape_and_range_witness:
  "select_model ''Custom CNN'' = (CustomCNN, (224, 224))
   \<and> (\<exists>t. preprocess stub_libs \<lparr>name = ''scan.png'', getbuffer = ''RAW''\<rparr> (224, 224)
            = Inr (replicate 224 (replicate 224 [0, 0, 0]), t)
          \<and> has_shape4 1 224 224 3 t \<and> all_values (\<lambda>x. 0 \<le> x \<and> x \<le> 1) t)"
proof -
  let ?u = "\<lparr>name = ''scan.png'', getbuffer = ''RAW''\<rparr>"
  let ?im = "replicate 224 (replicate 224 [0, 0, 0 :: 8 word])"
  have n: "''load_img'' \<in> set (image_names stub_libs)" "''img_to_array'' \<in> set (image_names stub_libs)"
    by (simp_all add: stub_libs_def keras_image_names_def)
  have s: "select_model ''Custom CNN'' = (CustomCNN, (224, 224))"
    by (simp add: select_model_def)
  have l: "load_img stub_libs ?u (224, 224) = Inr ?im"
    by (simp add: stub_libs_def)
  have h: "has_shape3 (fst (224 :: nat, 224 :: nat)) (snd (224 :: nat, 224 :: nat)) 3 ?im"
    by (simp add: has_shape3_def list_all_iff)
  from preprocess_shape_and_range [OF n s l h] s show ?thesis by blast
qed

subsection \<open>The composite and the files\<close>

lemma saliency_composite_needs_attr:
  "''image_to_array'' \<notin> set (image_names L) \<Longrightarrow>
   \<exists>e. saliency_composite L img model img_array class_index img_size = Inl e"
  by (auto simp: saliency_composite_def bind_err_def image_attr_def Let_def split: sum.splits)

text \<open>
  C3 (the code departs from the claim). Line 91 reads the attribute \<open>image_to_array\<close> of
  the Keras module; line 202 reads \<open>img_to_array\<close>. For every library whose module does
  not define \<open>image_to_array\<close>, and for every model, input tensor, class index, display
  size and file system, generate_saliency_map raises, returns no composite image and
  leaves the file system as it was.
\<close>

theorem saliency_map_raises_without_image_to_array:
  assumes "''image_to_array'' \<notin> set (image_names L)"
  shows "\<exists>e. generate_saliency_map L img uploaded_file model img_array class_index img_size w
              = (Inl e, w)"
proof -
  from saliency_composite_needs_attr [OF assms]
  obtain e where "saliency_composite L img model img_array class_index img_size = Inl e"
    by blast
  then show ?thesis by (simp add: generate_saliency_map_def)
qed

lemma sample_gradient:
  "cv2_resize stub_libs (squeeze stub_libs (tf_reduce_max stub_libs (tf_abs stub_libs
      (map (map (map (map (\<lambda>v. v + 1)))) sample_input)))) (2, 2)
   = [[19 / 17, 21 / 17], [23 / 17, 25 / 17]]"
  by (simp add: stub_libs_def sample_input_def sample_img_def div_255_def expand_dims0_def
      img_to_array_def)

lemma sample_mask: "circular_mask [[a, b], [c, d :: real]] = [[True, True], [True, True]]"
  by (simp add: circular_mask_def mask_at_def center_def radius_def shape0_def shape1_def
      upt_rec [of 0] upt_rec [of 1])

lemma sample_threshold:
  "mask_normalize_threshold [[19 / 17, 21 / 17], [23 / 17, 25 / 17]]
   = Inr [[0, 0], [0, 1]]"
  by (simp add: mask_normalize_threshold_def threshold_masked_def normalize_masked_def sample_mask
      normalize_brain_def np_max_def np_min_def array_div_def put_mask_def select_mask_def
      times_mask_def count_row_def np_percentile80_def zero_below_def Let_def)


lemma saliency_composite_blend:
  assumes "''image_to_array'' \<in> set (image_names L)"
    and "tape_gradient L model img_array class_index = Inr g0"
    and "mask_normalize_threshold
           (cv2_resize L (squeeze L (tf_reduce_max L (tf_abs L g0))) img_size) = Inr g"
    and "heatmap = cv2_resize_image L (cvtColor L (applyColorMap L
           (map (map (\<lambda>v. np_uint8 (255 * v))) (GaussianBlur L g (11, 11) 0)) COLORMAP_JET)
           COLOR_BGR2RGB) img_size"
    and "map (map length) heatmap = map (map length) (image_to_array L img)"
  shows "saliency_composite L img model img_array class_index img_size
       = Inr (astype_uint8 (map2 (map2 (map2 blend_px)) heatmap (image_to_array L img)))"
  using assms
  by (simp add: saliency_composite_def bind_err_def image_attr_def Let_def blend_def)

lemma blend_px_byte:
  assumes "0 \<le> orig" and "orig \<le> 255"
  shows "unat (np_uint8 (blend_px h orig)) = nat \<lfloor>blend_px h orig\<rfloor>"
proof -
  define v where "v = blend_px h orig"
  define hr :: real where "hr = unsigned h"
  have h: "0 \<le> hr" "hr \<le> 255" using byte_range [of h] by (simp_all add: hr_def)
  have v: "v = hr * 0.7 + orig * 0.3" by (simp add: v_def hr_def blend_px_def)
  have lo: "0 \<le> v" using assms h unfolding v by simp
  have "hr * 0.7 \<le> 255 * 0.7" and "orig * 0.3 \<le> 255 * 0.3" using assms h by simp_all
  then have hi: "v \<le> 255" unfolding v by linarith
  have f0: "0 \<le> \<lfloor>v\<rfloor>" using lo by simp
  have f1: "\<lfloor>v\<rfloor> < 256" using hi by (simp add: floor_less_iff)
  have "unat (word_of_int \<lfloor>v\<rfloor> :: 8 word) = nat (\<lfloor>v\<rfloor> mod 2 ^ 8)"
    by (simp add: unat_eq_nat_uint uint_word_of_int take_bit_eq_mod)
  also have "\<lfloor>v\<rfloor> mod 2 ^ 8 = \<lfloor>v\<rfloor>" using f0 f1 by simp
  finally have "unat (np_uint8 v) = nat \<lfloor>v\<rfloor>" using lo by (simp add: np_uint8_def)
  then show ?thesis by (simp add: v_def)
qed

lemma os_path_join_relative:
  "take 1 b \<noteq> ''/'' \<Longrightarrow> os_path_join output_dir b = ''saliency_maps/'' @ b"
  by (simp add: os_path_join_def output_dir_def)

lemma os_path_join_absolute: "os_path_join a (CHR ''/'' # rest) = CHR ''/'' # rest"
  by (simp add: os_path_join_def)

theorem saliency_map_raises_without_image_to_array_witness:
  "''image_to_array'' \<notin> set (image_names stub_libs)
   \<and> generate_saliency_map stub_libs sample_img \<lparr>name = ''scan.png'', getbuffer = ''RAW''\<rparr>
         () sample_input 0 (2, 2) sample_world
       = (Inl AttributeError, sample_world)"
proof -
  have n: "''image_to_array'' \<notin> set (image_names stub_libs)"
    by (simp add: stub_libs_def keras_image_names_def)
  have t: "tape_gradient stub_libs () sample_input 0
         = Inr (map (map (map (map (\<lambda>v. v + 1)))) sample_input)"
    by (simp add: stub_libs_def)
  have c: "saliency_composite stub_libs sample_img () sample_input 0 (2, 2) = Inl AttributeError"
    using n by (simp add: saliency_composite_def bind_err_def image_attr_def Let_def t
        sample_gradient sample_threshold)
  show ?thesis
    using saliency_map_raises_without_image_to_array [OF n, of sample_img
        "\<lparr>name = ''scan.png'', getbuffer = ''RAW''\<rparr>" "()" sample_input 0 "(2, 2)" sample_world]
    by (simp add: n c generate_saliency_map_def)
qed

lemma saliency_composite_tape_raises:
  "tape_gradient L model img_array class_index = Inl e \<Longrightarrow>
   saliency_composite L img model img_array class_index img_size = Inl e"
  by (simp add: saliency_composite_def bind_err_def)

lemma generate_saliency_map_raises:
  "saliency_composite L img model img_array class_index img_size = Inl e \<Longrightarrow>
   generate_saliency_map L img uploaded_file model img_array class_index img_size w = (Inl e, w)"
  by (simp add: generate_saliency_map_def)

text \<open>
  C5 (the code departs from the claim). Lines 95-101 run only after lines 55-93 have
  made the composite. Whenever the gradient tape of lines 55-62 raises (as
  \<open>tape.watch\<close> does on the NumPy array that line 216 passes) or the Keras module does
  not define \<open>image_to_array\<close> (line 91), generate_saliency_map raises, with the
  exception of the tape if that one raised, and leaves the file system exactly as it
  found it: neither the raw bytes nor the composite are written, and the entry
  saliency_maps/<name> is what it was before the call.
\<close>

theorem saliency_map_writes_no_file_when_it_raises:
  assumes "isl (tape_gradient L model img_array class_index)
         \<or> ''image_to_array'' \<notin> set (image_names L)"
  shows "(\<forall>e. tape_gradient L model img_array class_index = Inl e \<longrightarrow>
            generate_saliency_map L img uploaded_file model img_array class_index img_size w
              = (Inl e, w))
       \<and> isl (fst (generate_saliency_map L img uploaded_file model img_array class_index img_size w))
       \<and> snd (generate_saliency_map L img uploaded_file model img_array class_index img_size w) = w
       \<and> fs (snd (generate_saliency_map L img uploaded_file model img_array class_index img_size w))
            (''saliency_maps/'' @ name uploaded_file)
          = fs w (''saliency_maps/'' @ name uploaded_file)"
proof -
  let ?r = "generate_saliency_map L img uploaded_file model img_array class_index img_size w"
  have one: "\<forall>e. tape_gradient L model img_array class_index = Inl e \<longrightarrow> ?r = (Inl e, w)"
  proof (intro allI impI)
    fix e
    assume "tape_gradient L model img_array class_index = Inl e"
    then have "saliency_composite L img model img_array class_index img_size = Inl e"
      by (rule saliency_composite_tape_raises)
    then show "?r = (Inl e, w)" by (rule generate_saliency_map_raises)
  qed
  have "\<exists>e. saliency_composite L img model img_array class_index img_size = Inl e"
  proof (cases "isl (tape_gradient L model img_array class_index)")
    case True
    then obtain e where "tape_gradient L model img_array class_index = Inl e"
      by (cases "tape_gradient L model img_array class_index") auto
    then have "saliency_composite L img model img_array class_index img_size = Inl e"
      by (rule saliency_composite_tape_raises)
    then show ?thesis by blast
  next
    case False
    with assms have "''image_to_array'' \<notin> set (image_names L)" by simp
    then show ?thesis by (rule saliency_composite_needs_attr)
  qed
  then obtain e where "saliency_composite L img model img_array class_index img_size = Inl e"
    by blast
  then have "?r = (Inl e, w)" by (rule generate_saliency_map_raises)
  then have two: "isl (fst ?r)" and three: "snd ?r = w" by simp_all
  from three have four: "fs (snd ?r) (''saliency_maps/'' @ name uploaded_file)
      = fs w (''saliency_maps/'' @ name uploaded_file)" by simp
  from one two three four show ?thesis by (intro conjI)
qed

theorem saliency_map_writes_no_file_when_it_raises_witness:
  "isl (tape_gradient tensorflow_libs () sample_input 0)
   \<and> generate_saliency_map tensorflow_libs sample_img \<lparr>name = ''scan.png'', getbuffer = ''RAW''\<rparr>
         () sample_input 0 (2, 2) sample_world
       = (Inl ValueError, sample_world)
   \<and> fs sample_world ''saliency_maps/scan.png'' = None"
proof -
  have t: "tape_gradient tensorflow_libs () sample_input 0 = Inl ValueError"
    by (simp add: tensorflow_libs_def)
  then have h: "isl (tape_gradient tensorflow_libs () sample_input 0)
         \<or> ''image_to_array'' \<notin> set (image_names tensorflow_libs)"
    by simp
  from saliency_map_writes_no_file_when_it_raises [OF h] t
  have "generate_saliency_map tensorflow_libs sample_img \<lparr>name = ''scan.png'', getbuffer = ''RAW''\<rparr>
         () sample_input 0 (2, 2) sample_world
       = (Inl ValueError, sample_world)"
    by blast
  moreover have "fs sample_world ''saliency_maps/scan.png'' = None"
    by (simp add: sample_world_def)
  ultimately show ?thesis using t by simp
qed

end
